theory Spec2Isabelle
  imports Main "HOL-Library.Sublist"
begin

section \<open>Path handling of the Python standard library (POSIX flavour)\<close>

text \<open>
  \<^verbatim>\<open>config.py\<close> normalises project roots with \<^verbatim>\<open>os.path.normpath\<close> and
  \<^verbatim>\<open>pathlib.Path\<close>. Both are modelled here in their POSIX flavour
  (\<^verbatim>\<open>posixpath.normpath\<close>, \<^verbatim>\<open>PurePosixPath\<close>), the flavour in which the
  specification writes its paths (\<^verbatim>\<open>/a/b/_artifacts\<close>). Python strings are modelled as
  \<^typ>\<open>string\<close>.
\<close>

text \<open>\<^verbatim>\<open>str.split('/')\<close>: the pieces between separators, never an empty list.\<close>

fun split_sep :: "string \<Rightarrow> string list" where
  "split_sep [] = [[]]"
| "split_sep (c # cs) =
     (if c = CHR ''/'' then [] # split_sep cs
      else (case split_sep cs of [] \<Rightarrow> [[c]] | y # ys \<Rightarrow> (c # y) # ys))"

text \<open>\<^verbatim>\<open>'/'.join(comps)\<close>.\<close>

fun join_sep :: "string list \<Rightarrow> string" where
  "join_sep [] = []"
| "join_sep [x] = x"
| "join_sep (x # y # ys) = x @ ''/'' @ join_sep (y # ys)"

text \<open>
  \<^verbatim>\<open>initial_slashes\<close> of \<^verbatim>\<open>posixpath.normpath\<close>: 0 for a relative path, 2 for exactly
  two leading slashes, 1 for one or for three and more.
\<close>

definition initial_slashes :: "string \<Rightarrow> nat" where
  "initial_slashes p =
     (if prefix ''/'' p then (if prefix ''//'' p \<and> \<not> prefix ''///'' p then 2 else 1) else 0)"

text \<open>
  The loop of \<^verbatim>\<open>normpath\<close> over the components, with the list \<^verbatim>\<open>new_comps\<close> built so
  far: empty and \<^verbatim>\<open>.\<close> components are skipped, \<^verbatim>\<open>..\<close> pops the previous component
  unless there is none to pop (it is then kept on a relative path and dropped on an
  absolute one) or the previous one is itself \<^verbatim>\<open>..\<close>.
\<close>

fun norm_comps :: "nat \<Rightarrow> string list \<Rightarrow> string list \<Rightarrow> string list" where
  "norm_comps init new_comps [] = new_comps"
| "norm_comps init new_comps (seg # comps) =
     (if seg = [] \<or> seg = ''.'' then norm_comps init new_comps comps
      else if \<not> (seg = ''..'') \<or> (init = 0 \<and> new_comps = [])
              \<or> (\<not> (new_comps = []) \<and> last new_comps = ''..'')
        then norm_comps init (new_comps @ [seg]) comps
      else if \<not> (new_comps = []) then norm_comps init (butlast new_comps) comps
      else norm_comps init new_comps comps)"

definition normpath :: "string \<Rightarrow> string" where
  "normpath path =
     (if path = [] then ''.''
      else
        let init = initial_slashes path;
            comps = norm_comps init [] (split_sep path);
            joined = replicate init (CHR ''/'') @ join_sep comps
        in if joined = [] then ''.'' else joined)"

text \<open>
  A \<^verbatim>\<open>PurePosixPath\<close>: its root (\<^verbatim>\<open>''\<close>, \<^verbatim>\<open>/\<close> or \<^verbatim>\<open>//\<close>) and the components
  after the root. There is no drive on POSIX.
\<close>

record pure_path =
  root :: string
  parts :: "string list"

text \<open>
  \<^verbatim>\<open>splitroot\<close> of the POSIX flavour: the root and the text after the leading slashes.
  Exactly two leading slashes are kept as the root \<^verbatim>\<open>//\<close>; any other number is \<^verbatim>\<open>/\<close>.
\<close>

definition splitroot :: "string \<Rightarrow> string \<times> string" where
  "splitroot part =
     (if prefix ''/'' part then
        let stripped = dropWhile (\<lambda>c. c = CHR ''/'') part
        in (if length part - length stripped = 2 then ''//'' else ''/'', stripped)
      else ([], part))"

text \<open>
  \<^verbatim>\<open>Path(s)\<close> for one string argument: the components of the text after the root,
  without the empty ones and without \<^verbatim>\<open>.\<close>.
\<close>

definition Path :: "string \<Rightarrow> pure_path" where
  "Path s =
     (let (r, rel) = splitroot s
      in \<lparr>root = r, parts = filter (\<lambda>x. \<not> (x = []) \<and> \<not> (x = ''.'')) (split_sep rel)\<rparr>)"

text \<open>\<^verbatim>\<open>str(p)\<close>: root and joined components, \<^verbatim>\<open>.\<close> for the empty path.\<close>

definition path_str :: "pure_path \<Rightarrow> string" where
  "path_str p = (let s = root p @ join_sep (parts p) in if s = [] then ''.'' else s)"

text \<open>\<^verbatim>\<open>p.name\<close>: the last component, the empty string when there is none.\<close>

definition path_name :: "pure_path \<Rightarrow> string" where
  "path_name p = (if parts p = [] then [] else last (parts p))"

text \<open>\<^verbatim>\<open>p.parent\<close>: the path without its last component; a bare root or the empty
  path is its own parent.\<close>

definition path_parent :: "pure_path \<Rightarrow> pure_path" where
  "path_parent p = (if parts p = [] then p else p\<lparr>parts := butlast (parts p)\<rparr>)"

text \<open>\<^verbatim>\<open>p / child\<close>: a rooted child replaces the path, a relative child is appended.\<close>

definition path_div :: "pure_path \<Rightarrow> string \<Rightarrow> pure_path" where
  "path_div p child =
     (let c = Path child
      in if root c = [] then p\<lparr>parts := parts p @ parts c\<rparr> else c)"

text \<open>
  \<^verbatim>\<open>str.lower()\<close> on the letters A to Z. The source only compares the lowered name with
  the two ASCII names below, and no character outside ASCII lowers to a letter of them,
  so the comparison is the one Python makes.
\<close>

definition lower_char :: "char \<Rightarrow> char" where
  "lower_char c =
     (let n = (of_char c :: nat) in if 65 \<le> n \<and> n \<le> 90 then char_of (n + 32) else c)"

definition lower :: "string \<Rightarrow> string" where
  "lower s = map lower_char s"

section \<open>config.py: normalisation and derivation\<close>

definition normalize_project_root :: "string \<Rightarrow> string" where
  "normalize_project_root path =
     (let normalized_path = normpath path;
          path_obj = Path normalized_path;
          base_name = lower (path_name path_obj)
      in if base_name = ''_artifacts'' \<or> base_name = ''execledger''
         then path_str (path_parent path_obj)
         else normalized_path)"

definition derive_artifacts_root :: "string \<Rightarrow> string" where
  "derive_artifacts_root project_root =
     (let project_root = normalize_project_root project_root
      in path_str (path_div (Path project_root) ''execledger''))"

section \<open>config.py: the configuration store\<close>

text \<open>
  A project entry and the dictionary \<^verbatim>\<open>self._config\<close>. The dictionary is always the
  defaults updated with the file's keys, so its five keys are always present and it is a
  record here; the fallbacks of the getters to \<^verbatim>\<open>self.defaults\<close> are never taken.
\<close>

record project =
  name :: string
  project_root :: string
  artifacts_root :: string

record config_dict =
  cfg_artifacts_root :: string
  dev_mode :: int
  tier :: string
  projects :: "project list"
  active_project :: string

text \<open>
  The persisted JSON file: an object in which every key may be missing, with project
  entries in which every key may be missing. A file that is absent, and a file whose
  loading raises (invalid JSON, values of the wrong shape), are separate cases.
\<close>

record entry =
  e_name :: "string option"
  e_project_root :: "string option"
  e_artifacts_root :: "string option"

record file_config =
  f_artifacts_root :: "string option"
  f_dev_mode :: "int option"
  f_tier :: "string option"
  f_projects :: "entry list option"
  f_active_project :: "string option"

datatype config_file = NoFile | Unreadable | Content file_config

text \<open>
  The store: the dictionary in memory, the content of \<^verbatim>\<open>ui_config.json\<close>, and whether
  the file can be written (the environment of \<^verbatim>\<open>save_config\<close>).
\<close>

record Config =
  config :: config_dict
  disk :: config_file
  writable :: bool

datatype error = ValueError string | FileNotFoundError string

text \<open>\<^verbatim>\<open>self.defaults\<close>, for the repository root \<^verbatim>\<open>str(repo_root)\<close>.\<close>

definition defaults :: "string \<Rightarrow> config_dict" where
  "defaults repo_root =
     (let default_project_root = repo_root;
          default_artifacts_root = derive_artifacts_root default_project_root
      in \<lparr>cfg_artifacts_root = default_artifacts_root,
          dev_mode = 1,
          tier = ''PREMIUM'',
          projects = [\<lparr>name = ''ExecLedger'',
                       project_root = default_project_root,
                       artifacts_root = default_artifacts_root\<rparr>],
          active_project = ''ExecLedger''\<rparr>)"

text \<open>\<^verbatim>\<open>entry.get("name", "ExecLedger")\<close>.\<close>

definition entry_name :: "entry \<Rightarrow> string" where
  "entry_name e = (case e_name e of Some n \<Rightarrow> n | None \<Rightarrow> ''ExecLedger'')"

definition normalize_project_entry :: "string \<Rightarrow> entry \<Rightarrow> project" where
  "normalize_project_entry repo_root e =
     (case (e_project_root e, e_artifacts_root e) of
        (Some pr, Some ar) \<Rightarrow>
          (let project_root = normalize_project_root pr;
               artifacts_root = derive_artifacts_root project_root
           in \<lparr>name = entry_name e, project_root = project_root,
               artifacts_root = artifacts_root\<rparr>)
      | (None, Some legacy_path) \<Rightarrow>
          (let project_root =
                 (if suffix ''_artifacts'' legacy_path \<or> suffix ''execledger'' legacy_path
                  then path_str (path_parent (Path legacy_path))
                  else legacy_path);
               project_root = normalize_project_root project_root;
               artifacts_root = derive_artifacts_root project_root
           in \<lparr>name = entry_name e, project_root = project_root,
               artifacts_root = artifacts_root\<rparr>)
      | (_, None) \<Rightarrow>
          (let project_root = normalize_project_root repo_root;
               artifacts_root = derive_artifacts_root project_root
           in \<lparr>name = entry_name e, project_root = project_root,
               artifacts_root = artifacts_root\<rparr>))"

text \<open>
  \<^verbatim>\<open>_load_config\<close>: the legacy migration, the normalisation of every entry, and the
  merge over the defaults. Any exception while loading gives the defaults.
\<close>

definition migrate_legacy :: "file_config \<Rightarrow> file_config" where
  "migrate_legacy c =
     (case f_projects c of
        Some ps \<Rightarrow> c
      | None \<Rightarrow>
          (case f_artifacts_root c of
             None \<Rightarrow> c
           | Some a \<Rightarrow>
               c\<lparr>f_projects := Some [\<lparr>e_name = Some ''ExecLedger'', e_project_root = None,
                                       e_artifacts_root = Some a\<rparr>],
                 f_active_project := Some ''ExecLedger''\<rparr>))"

definition load_config :: "string \<Rightarrow> config_file \<Rightarrow> config_dict" where
  "load_config repo_root f =
     (case f of
        NoFile \<Rightarrow> defaults repo_root
      | Unreadable \<Rightarrow> defaults repo_root
      | Content c0 \<Rightarrow>
          (let c = migrate_legacy c0;
               d = defaults repo_root
           in \<lparr>cfg_artifacts_root =
                 (case f_artifacts_root c of Some v \<Rightarrow> v | None \<Rightarrow> cfg_artifacts_root d),
               dev_mode = (case f_dev_mode c of Some v \<Rightarrow> v | None \<Rightarrow> dev_mode d),
               tier = (case f_tier c of Some v \<Rightarrow> v | None \<Rightarrow> tier d),
               projects =
                 (case f_projects c of
                    Some es \<Rightarrow> map (normalize_project_entry repo_root) es
                  | None \<Rightarrow> projects d),
               active_project =
                 (case f_active_project c of Some v \<Rightarrow> v | None \<Rightarrow> active_project d)\<rparr>))"

definition Config_init :: "string \<Rightarrow> config_file \<Rightarrow> bool \<Rightarrow> Config" where
  "Config_init repo_root f w = \<lparr>config = load_config repo_root f, disk = f, writable = w\<rparr>"

text \<open>\<^verbatim>\<open>json.dump(self._config, f)\<close>: what the file holds after a successful save.\<close>

definition dump :: "config_dict \<Rightarrow> file_config" where
  "dump c =
     \<lparr>f_artifacts_root = Some (cfg_artifacts_root c),
      f_dev_mode = Some (dev_mode c),
      f_tier = Some (tier c),
      f_projects = Some (map (\<lambda>p. \<lparr>e_name = Some (name p),
                                    e_project_root = Some (project_root p),
                                    e_artifacts_root = Some (artifacts_root p)\<rparr>) (projects c)),
      f_active_project = Some (active_project c)\<rparr>"

text \<open>\<^verbatim>\<open>save_config\<close>: a failed write is printed and swallowed; the file stays as it was.\<close>

definition save_config :: "Config \<Rightarrow> Config" where
  "save_config s = (if writable s then s\<lparr>disk := Content (dump (config s))\<rparr> else s)"

definition get_projects :: "Config \<Rightarrow> project list" where
  "get_projects s = projects (config s)"

definition set_projects :: "project list \<Rightarrow> Config \<Rightarrow> Config" where
  "set_projects ps s = save_config (s\<lparr>config := (config s)\<lparr>projects := ps\<rparr>\<rparr>)"

definition get_active_project_name :: "Config \<Rightarrow> string" where
  "get_active_project_name s = active_project (config s)"

definition set_active_project_name :: "string \<Rightarrow> Config \<Rightarrow> Config" where
  "set_active_project_name n s = save_config (s\<lparr>config := (config s)\<lparr>active_project := n\<rparr>\<rparr>)"

definition get_active_project :: "Config \<Rightarrow> project option" where
  "get_active_project s =
     (let active_name = get_active_project_name s
      in find (\<lambda>p. name p = active_name) (get_projects s))"

definition get_active_artifacts_root :: "Config \<Rightarrow> string" where
  "get_active_artifacts_root s =
     (case get_active_project s of
        Some p \<Rightarrow> artifacts_root p
      | None \<Rightarrow> cfg_artifacts_root (config s))"

definition set_active_project_by_name :: "string \<Rightarrow> Config \<Rightarrow> Config \<times> bool" where
  "set_active_project_by_name n s =
     (case find (\<lambda>p. name p = n) (get_projects s) of
        Some p \<Rightarrow> (set_active_project_name n s, True)
      | None \<Rightarrow> (s, False))"

text \<open>
  The loop of \<^verbatim>\<open>upsert_project\<close> and of the \<^verbatim>\<open>artifacts_root\<close> setter: the first
  project with the name gets the two roots; \<^const>\<open>None\<close> when the loop ends without
  \<^verbatim>\<open>break\<close>.
\<close>

fun update_first :: "string \<Rightarrow> string \<Rightarrow> string \<Rightarrow> project list \<Rightarrow> project list option" where
  "update_first n pr ar [] = None"
| "update_first n pr ar (p # ps) =
     (if name p = n then Some (p\<lparr>project_root := pr, artifacts_root := ar\<rparr> # ps)
      else (case update_first n pr ar ps of
              None \<Rightarrow> None
            | Some ps' \<Rightarrow> Some (p # ps')))"

definition upsert_project :: "string \<Rightarrow> string \<Rightarrow> Config \<Rightarrow> Config" where
  "upsert_project n pr0 s =
     (let project_root = normalize_project_root pr0;
          ps = get_projects s;
          artifacts_root = derive_artifacts_root project_root;
          ps' = (case update_first n project_root artifacts_root ps of
                   Some qs \<Rightarrow> qs
                 | None \<Rightarrow> ps @ [\<lparr>name = n, project_root = project_root,
                                    artifacts_root = artifacts_root\<rparr>])
      in set_projects ps' s)"

definition remove_project :: "string \<Rightarrow> Config \<Rightarrow> Config \<times> bool" where
  "remove_project n s =
     (let ps = get_projects s
      in if length ps \<le> 1 then (s, False)
         else
           (let ps' = filter (\<lambda>p. \<not> (name p = n)) ps;
                s1 = set_projects ps' s;
                s2 = (if get_active_project_name s1 = n
                      then (case ps' of
                              [] \<Rightarrow> s1
                            | p # rest \<Rightarrow> set_active_project_name (name p) s1)
                      else s1)
            in (s2, True)))"

text \<open>The setter of the property \<^verbatim>\<open>artifacts_root\<close>.\<close>

definition artifacts_root_setter :: "string \<Rightarrow> Config \<Rightarrow> Config" where
  "artifacts_root_setter v s =
     (case get_active_project s of
        Some active \<Rightarrow>
          (let ps = get_projects s;
               ps' = (case update_first (get_active_project_name s) v
                             (derive_artifacts_root v) ps of
                        Some qs \<Rightarrow> qs
                      | None \<Rightarrow> ps)
           in set_projects ps' s)
      | None \<Rightarrow> save_config (s\<lparr>config := (config s)\<lparr>cfg_artifacts_root := v\<rparr>\<rparr>))"

definition dev_mode_setter :: "bool \<Rightarrow> Config \<Rightarrow> Config" where
  "dev_mode_setter v s =
     save_config (s\<lparr>config := (config s)\<lparr>dev_mode := (if v then 1 else 0)\<rparr>\<rparr>)"

text \<open>
  The setter of the property \<^verbatim>\<open>tier\<close>: the store after the call, and the exception
  raised to the caller, if any.
\<close>

definition tier_setter :: "string \<Rightarrow> Config \<Rightarrow> Config \<times> error option" where
  "tier_setter v s =
     (if v \<in> set [''FREE'', ''PRO'', ''PREMIUM'']
      then (save_config (s\<lparr>config := (config s)\<lparr>tier := v\<rparr>\<rparr>), None)
      else (s, Some (ValueError (''Invalid tier: '' @ v))))"

text \<open>Sequences of mutating calls on a store.\<close>

datatype store_op =
    Upsert string string
  | Remove string
  | SetArtifactsRoot string
  | SetActive string
  | SetTier string
  | SetDevMode bool

fun apply_op :: "store_op \<Rightarrow> Config \<Rightarrow> Config" where
  "apply_op (Upsert n pr) s = upsert_project n pr s"
| "apply_op (Remove n) s = fst (remove_project n s)"
| "apply_op (SetArtifactsRoot v) s = artifacts_root_setter v s"
| "apply_op (SetActive n) s = fst (set_active_project_by_name n s)"
| "apply_op (SetTier v) s = fst (tier_setter v s)"
| "apply_op (SetDevMode v) s = dev_mode_setter v s"

fun run_ops :: "store_op list \<Rightarrow> Config \<Rightarrow> Config" where
  "run_ops [] s = s"
| "run_ops (x # xs) s = run_ops xs (apply_op x s)"

section \<open>engine_client.py: the engine gateway\<close>

record 'j EngineResult =
  ok :: bool
  contract :: "'j option"
  stdout :: string
  stderr :: string
  code :: int
  cmd :: "string list"

record 'j EngineClient =
  engine_path :: string
  last_result :: "'j EngineResult option"

text \<open>
  What \<^verbatim>\<open>subprocess.run(cmd, timeout=30)\<close> does: the child ends with its output and
  exit code, or the timeout expires, or the launch raises an exception (with its text).
\<close>

datatype run_result =
    CompletedProcess string string int
  | TimeoutExpired
  | RunRaised string

text \<open>
  What \<^verbatim>\<open>json.loads(stdout)\<close> does: it returns a value, a \<^verbatim>\<open>JSONDecodeError\<close> is
  raised (with its text), or another exception is raised (with its text). The value of
  the JSON text \<^verbatim>\<open>null\<close> is Python's \<^verbatim>\<open>None\<close>, here \<^const>\<open>None\<close>; every other value
  is \<open>Some doc\<close>.
\<close>

datatype 'j loads_result =
    Parsed "'j option"
  | JSONDecodeError string
  | LoadsRaised string

text \<open>
  \<^verbatim>\<open>_get_engine_path\<close> and \<^verbatim>\<open>__init__\<close>, for the directory of the module and the
  file system's \<^verbatim>\<open>exists\<close>.
\<close>

definition get_engine_path :: "(string \<Rightarrow> bool) \<Rightarrow> string \<Rightarrow> error + string" where
  "get_engine_path exists ui_dir =
     (let engine_path =
            path_str (path_div (path_div (path_div (path_parent (Path ui_dir)) ''engine'')
                        ''src'') ''index.js'')
      in if \<not> exists engine_path
         then Inl (FileNotFoundError (''Engine not found at: '' @ engine_path))
         else Inr engine_path)"

definition EngineClient_init :: "(string \<Rightarrow> bool) \<Rightarrow> string \<Rightarrow> error + 'j EngineClient" where
  "EngineClient_init exists ui_dir =
     (case get_engine_path exists ui_dir of
        Inl e \<Rightarrow> Inl e
      | Inr p \<Rightarrow> Inr \<lparr>engine_path = p, last_result = None\<rparr>)"

text \<open>The result built by both exception handlers of \<^verbatim>\<open>_execute_engine\<close>.\<close>

definition failure_result :: "string \<Rightarrow> string list \<Rightarrow> 'j EngineResult" where
  "failure_result error_msg c =
     \<lparr>ok = False, contract = None, stdout = [], stderr = error_msg, code = - 1, cmd = c\<rparr>"

text \<open>
  \<^verbatim>\<open>_execute_engine\<close>. The contract is the value that \<^verbatim>\<open>json.loads\<close> returns, so
  it is \<^verbatim>\<open>None\<close> with \<^verbatim>\<open>ok\<close> true when the output is \<^verbatim>\<open>null\<close>. The f-string of
  the parse error is written \<^verbatim>\<open>\\n\<close> in the source, which Python reads as a
  backslash and the letter n.
\<close>

definition execute_engine ::
  "(string list \<Rightarrow> int \<Rightarrow> run_result) \<Rightarrow> (string \<Rightarrow> 'j loads_result) \<Rightarrow>
   'j EngineClient \<Rightarrow> string list \<Rightarrow> 'j EngineResult \<times> 'j EngineClient" where
  "execute_engine run loads self c =
     (let engine_result =
            (case run c 30 of
               CompletedProcess out err rc \<Rightarrow>
                 (if rc = 0 then
                    (case loads out of
                       Parsed doc \<Rightarrow>
                         \<lparr>ok = True, contract = doc, stdout = out, stderr = err,
                          code = rc, cmd = c\<rparr>
                     | JSONDecodeError e \<Rightarrow>
                         \<lparr>ok = False, contract = None, stdout = out,
                          stderr = ''JSON parse error: '' @ e @ [CHR 0x5C, CHR ''n''] @ err,
                          code = rc, cmd = c\<rparr>
                     | LoadsRaised e \<Rightarrow>
                         failure_result (''Engine execution failed: '' @ e) c)
                  else
                    \<lparr>ok = False, contract = None, stdout = out, stderr = err,
                     code = rc, cmd = c\<rparr>)
             | TimeoutExpired \<Rightarrow> failure_result ''Engine timeout after 30s'' c
             | RunRaised e \<Rightarrow> failure_result (''Engine execution failed: '' @ e) c)
      in (engine_result, self\<lparr>last_result := Some engine_result\<rparr>))"

definition get_latest_session ::
  "(string list \<Rightarrow> int \<Rightarrow> run_result) \<Rightarrow> (string \<Rightarrow> 'j loads_result) \<Rightarrow>
   'j EngineClient \<Rightarrow> string \<Rightarrow> 'j EngineResult \<times> 'j EngineClient" where
  "get_latest_session run loads self a_root =
     execute_engine run loads self
       [''node'', engine_path self, ''--root'', a_root, ''--latest'']"

definition get_specific_session ::
  "(string list \<Rightarrow> int \<Rightarrow> run_result) \<Rightarrow> (string \<Rightarrow> 'j loads_result) \<Rightarrow>
   'j EngineClient \<Rightarrow> string \<Rightarrow> string \<Rightarrow> string \<Rightarrow> 'j EngineResult \<times> 'j EngineClient" where
  "get_specific_session run loads self a_root exec_id session_id =
     execute_engine run loads self
       [''node'', engine_path self, ''--root'', a_root,
        ''--exec'', exec_id, ''--session'', session_id]"

text \<open>
  \<^verbatim>\<open>export_contract_to_file\<close>; the two identifiers default to \<^verbatim>\<open>None\<close>, and
  \<^verbatim>\<open>if exec_id and session_id\<close> asks for both to be given and not empty.
\<close>

definition export_cmd :: "string \<Rightarrow> string \<Rightarrow> string \<Rightarrow> string option \<Rightarrow> string option \<Rightarrow> string list" where
  "export_cmd path a_root output_file exec_id session_id =
     [''node'', path, ''--root'', a_root, ''--out'', output_file] @
     (case exec_id of
        None \<Rightarrow> [''--latest'']
      | Some e \<Rightarrow>
          (case session_id of
             None \<Rightarrow> [''--latest'']
           | Some x \<Rightarrow>
               if e = [] \<or> x = [] then [''--latest'']
               else [''--exec'', e, ''--session'', x]))"

definition export_contract_to_file ::
  "(string list \<Rightarrow> int \<Rightarrow> run_result) \<Rightarrow> (string \<Rightarrow> 'j loads_result) \<Rightarrow>
   'j EngineClient \<Rightarrow> string \<Rightarrow> string \<Rightarrow> string option \<Rightarrow> string option \<Rightarrow>
   'j EngineResult \<times> 'j EngineClient" where
  "export_contract_to_file run loads self a_root output_file exec_id session_id =
     execute_engine run loads self
       (export_cmd (engine_path self) a_root output_file exec_id session_id)"

section \<open>Predicates of the proofs\<close>

text \<open>
  The shape of every string that \<^const>\<open>normpath\<close> returns: up to two leading slashes
  and components that are not empty, not \<^verbatim>\<open>.\<close>, hold no separator, and that the
  loop of \<^const>\<open>normpath\<close> leaves as they are.
\<close>

definition seg_ok :: "string \<Rightarrow> bool" where
  "seg_ok c \<longleftrightarrow> c \<noteq> [] \<and> c \<noteq> ''.'' \<and> CHR ''/'' \<notin> set c"

definition render :: "nat \<Rightarrow> string list \<Rightarrow> string" where
  "render init cs =
     (let j = replicate init (CHR ''/'') @ join_sep cs in if j = [] then ''.'' else j)"

definition good :: "nat \<Rightarrow> string list \<Rightarrow> bool" where
  "good init cs \<longleftrightarrow> init \<le> 2 \<and> list_all seg_ok cs \<and> norm_comps init [] cs = cs"

text \<open>The relation between the two roots of a project.\<close>

definition project_ok :: "project \<Rightarrow> bool" where
  "project_ok p \<longleftrightarrow>
     artifacts_root p
       = path_str (path_div (Path (normalize_project_root (project_root p))) ''execledger'')"

definition store_ok :: "Config \<Rightarrow> bool" where
  "store_ok s \<longleftrightarrow> list_all project_ok (get_projects s)"

section \<open>Splitting and joining\<close>
lemma split_sep_not_Nil: "split_sep s \<noteq> []"
  by (induction s) (auto split: list.splits)

lemma split_sep_no_sep: "c \<in> set (split_sep s) \<Longrightarrow> CHR ''/'' \<notin> set c"
  by (induction s arbitrary: c) (auto split: list.splits if_splits)

lemma split_sep_plain: "CHR ''/'' \<notin> set x \<Longrightarrow> split_sep x = [x]"
  by (induction x) auto

lemma split_sep_append: "CHR ''/'' \<notin> set x \<Longrightarrow> split_sep (x @ CHR ''/'' # r) = x # split_sep r"
  by (induction x) auto

lemma split_join: "cs \<noteq> [] \<Longrightarrow> \<forall>c\<in>set cs. CHR ''/'' \<notin> set c \<Longrightarrow> split_sep (join_sep cs) = cs"
  by (induction cs rule: join_sep.induct) (auto simp: split_sep_plain split_sep_append)

lemma split_slashes: "split_sep (replicate k (CHR ''/'') @ s) = replicate k [] @ split_sep s"
  by (induction k) auto

lemma norm_comps_append:
  "norm_comps init new (xs @ ys) = norm_comps init (norm_comps init new xs) ys"
  by (induction xs arbitrary: new) auto

lemma norm_comps_skip: "norm_comps init new (replicate k [] @ cs) = norm_comps init new cs"
  by (induction k) auto

lemma norm_comps_length: "length (norm_comps init new cs) \<le> length new + length cs"
proof (induction cs arbitrary: new)
  case Nil
  then show ?case by simp
next
  case (Cons seg cs)
  have a: "length (norm_comps init (new @ [seg]) cs) \<le> length new + 1 + length cs"
    using Cons.IH [of "new @ [seg]"] by simp
  have b: "length (norm_comps init (butlast new) cs) \<le> length new + length cs"
    using Cons.IH [of "butlast new"] by simp
  have c: "length (norm_comps init new cs) \<le> length new + length cs"
    using Cons.IH [of new] .
  show ?case using a b c by auto
qed

lemma norm_comps_set:
  "set (norm_comps init new cs) \<subseteq> set new \<union> {c \<in> set cs. c \<noteq> [] \<and> c \<noteq> ''.''}"
proof (induction cs arbitrary: new)
  case Nil
  then show ?case by simp
next
  case (Cons seg cs)
  have a: "set (norm_comps init (new @ [seg]) cs) \<subseteq> set (new @ [seg]) \<union> {c \<in> set cs. c \<noteq> [] \<and> c \<noteq> ''.''}"
    using Cons.IH [of "new @ [seg]"] .
  have b: "set (norm_comps init (butlast new) cs) \<subseteq> set (butlast new) \<union> {c \<in> set cs. c \<noteq> [] \<and> c \<noteq> ''.''}"
    using Cons.IH [of "butlast new"] .
  have c: "set (norm_comps init new cs) \<subseteq> set new \<union> {c \<in> set cs. c \<noteq> [] \<and> c \<noteq> ''.''}"
    using Cons.IH [of new] .
  have d: "set (butlast new) \<subseteq> set new" by (auto dest: in_set_butlastD)
  show ?case using a b c d by (auto split: if_splits)
qed

lemma norm_comps_single:
  "norm_comps init r [x] = r \<or> norm_comps init r [x] = r @ [x] \<or> norm_comps init r [x] = butlast r"
  by simp

text \<open>The lists that the loop leaves as they are stay so without their last element.\<close>
lemma fix_snoc:
  assumes "norm_comps init [] (xs @ [x]) = xs @ [x]"
  shows "norm_comps init [] xs = xs"
proof -
  let ?r = "norm_comps init [] xs"
  have len: "length ?r \<le> length xs" using norm_comps_length [of init "[]" xs] by simp
  have step: "norm_comps init ?r [x] = xs @ [x]"
    using assms by (simp only: norm_comps_append)
  show ?thesis
  proof (cases "norm_comps init ?r [x] = ?r @ [x]")
    case True
    with step show ?thesis by simp
  next
    case False
    then have "norm_comps init ?r [x] = ?r \<or> norm_comps init ?r [x] = butlast ?r"
      using norm_comps_single [of init ?r x] by blast
    then have "length (norm_comps init ?r [x]) \<le> length ?r"
      by (auto simp del: norm_comps.simps)
    with step len show ?thesis by (simp del: norm_comps.simps)
  qed
qed

lemma fix_butlast: "norm_comps init [] cs = cs \<Longrightarrow> norm_comps init [] (butlast cs) = butlast cs"
proof (cases cs rule: rev_cases)
  case Nil
  then show ?thesis by simp
next
  case (snoc xs x)
  assume "norm_comps init [] cs = cs"
  with snoc show ?thesis using fix_snoc [of init xs x] by simp
qed

lemma norm_comps_fix:
  "norm_comps init [] new = new \<Longrightarrow> norm_comps init [] (norm_comps init new cs) = norm_comps init new cs"
proof (induction cs arbitrary: new)
  case Nil
  then show ?case by simp
next
  case (Cons seg cs)
  show ?case
  proof (cases "seg = [] \<or> seg = ''.''")
    case True
    then show ?thesis using Cons.IH [OF Cons.prems] by auto
  next
    case skip: False
    show ?thesis
    proof (cases "\<not> (seg = ''..'') \<or> (init = 0 \<and> new = []) \<or> (\<not> (new = []) \<and> last new = ''..'')")
      case True
      have "norm_comps init [] (new @ [seg]) = norm_comps init new [seg]"
        using Cons.prems by (simp only: norm_comps_append)
      also have "\<dots> = new @ [seg]" using True skip by auto
      finally have "norm_comps init [] (new @ [seg]) = new @ [seg]" .
      from Cons.IH [OF this] show ?thesis using True skip by auto
    next
      case False
      have "norm_comps init [] (butlast new) = butlast new"
        using Cons.prems by (rule fix_butlast)
      from Cons.IH [OF this] Cons.IH [OF Cons.prems] show ?thesis using False skip by auto
    qed
  qed
qed

lemma good_normpath_comps:
  "init \<le> 2 \<Longrightarrow> good init (norm_comps init [] (split_sep p))"
  unfolding good_def list_all_iff
  using norm_comps_fix [of init "[]" "split_sep p"] norm_comps_set [of init "[]" "split_sep p"]
    split_sep_no_sep [of _ p]
  by (auto simp: seg_ok_def)

lemma good_butlast: "good init cs \<Longrightarrow> good init (butlast cs)"
  unfolding good_def list_all_iff by (auto dest: in_set_butlastD intro: fix_butlast)

lemma initial_slashes_le: "initial_slashes p \<le> 2"
  by (simp add: initial_slashes_def)

lemma normpath_render: "\<exists>init cs. good init cs \<and> normpath p = render init cs"
proof (cases "p = []")
  case True
  have "good 0 []" by (simp add: good_def list_all_iff)
  moreover have "normpath p = render 0 []" using True by (simp add: normpath_def render_def)
  ultimately show ?thesis by blast
next
  case False
  let ?i = "initial_slashes p"
  let ?cs = "norm_comps ?i [] (split_sep p)"
  have "good ?i ?cs" using good_normpath_comps [OF initial_slashes_le] .
  moreover have "normpath p = render ?i ?cs" using False by (simp add: normpath_def render_def Let_def)
  ultimately show ?thesis by blast
qed



lemma join_sep_Cons: "join_sep (c # cs) = (if cs = [] then c else c @ CHR ''/'' # join_sep cs)"
  by (cases cs) auto

lemma join_sep_nonempty:
  "cs \<noteq> [] \<Longrightarrow> \<forall>c\<in>set cs. seg_ok c \<Longrightarrow> join_sep cs \<noteq> [] \<and> hd (join_sep cs) \<noteq> CHR ''/''"
proof (cases cs)
  case Nil
  assume "cs \<noteq> []"
  with Nil show ?thesis by simp
next
  case (Cons a list)
  assume "\<forall>c\<in>set cs. seg_ok c"
  with Cons have a: "a \<noteq> []" "CHR ''/'' \<notin> set a" by (simp_all add: seg_ok_def)
  then have "hd a \<noteq> CHR ''/''" by (metis list.set_sel(1))
  with a Cons show ?thesis by (simp add: join_sep_Cons hd_append)
qed


lemma no_lead_cases: "s = [] \<or> hd s \<noteq> CHR ''/'' \<Longrightarrow> \<not> prefix ''/'' s"
  by (cases s) auto

lemma initial_slashes_render:
  assumes "init \<le> 2" and "s = [] \<or> hd s \<noteq> CHR ''/''"
  shows "initial_slashes (replicate init (CHR ''/'') @ s) = init"
proof -
  have n: "\<not> prefix ''/'' s" using assms(2) by (rule no_lead_cases)
  from assms(1) consider "init = 0" | "init = Suc 0" | "init = Suc (Suc 0)" by linarith
  then show ?thesis
  proof cases
    case 1 then show ?thesis using n by (simp add: initial_slashes_def)
  next
    case 2 then show ?thesis using n by (simp add: initial_slashes_def)
  next
    case 3 then show ?thesis using n by (simp add: initial_slashes_def)
  qed
qed

lemma dropWhile_slashes:
  assumes "s = [] \<or> hd s \<noteq> CHR ''/''"
  shows "dropWhile (\<lambda>c. c = CHR ''/'') (replicate init (CHR ''/'') @ s) = s"
proof -
  have "dropWhile (\<lambda>c. c = CHR ''/'') s = s" using assms by (cases s) auto
  then show ?thesis by (induction init) auto
qed

lemma splitroot_render:
  assumes "init \<le> 2" and "s = [] \<or> hd s \<noteq> CHR ''/''"
  shows "splitroot (replicate init (CHR ''/'') @ s) = (replicate init (CHR ''/''), s)"
proof -
  have n: "\<not> prefix ''/'' s" using assms(2) by (rule no_lead_cases)
  have d: "dropWhile (\<lambda>c. c = CHR ''/'') (replicate init (CHR ''/'') @ s) = s"
    using assms(2) by (rule dropWhile_slashes)
  from assms(1) consider "init = 0" | "init = Suc 0" | "init = Suc (Suc 0)" by linarith
  then show ?thesis
  proof cases
    case 1 then show ?thesis using n by (simp add: splitroot_def)
  next
    case 2
    have "splitroot (CHR ''/'' # s) = (''/'', s)"
      using d 2 by (simp add: splitroot_def Let_def)
    then show ?thesis using 2 by simp
  next
    case 3
    have "splitroot (CHR ''/'' # CHR ''/'' # s) = (''//'', s)"
      using d 3 by (simp add: splitroot_def Let_def)
    then show ?thesis using 3 by simp
  qed
qed

lemma render_alt:
  assumes "\<forall>c\<in>set cs. seg_ok c"
  shows "render init cs = (if init = 0 \<and> cs = [] then ''.'' else replicate init (CHR ''/'') @ join_sep cs)"
proof (cases "cs = []")
  case True then show ?thesis by (simp add: render_def)
next
  case False
  then have "join_sep cs \<noteq> []" using assms join_sep_nonempty by blast
  with False show ?thesis by (simp add: render_def Let_def)
qed

lemma filter_segs: "\<forall>c\<in>set cs. seg_ok c \<Longrightarrow> filter (\<lambda>x. \<not> (x = []) \<and> \<not> (x = ''.'')) cs = cs"
  by (induction cs) (auto simp: seg_ok_def)

lemma segs_no_sep: "\<forall>c\<in>set cs. seg_ok c \<Longrightarrow> \<forall>c\<in>set cs. CHR ''/'' \<notin> set c"
  by (simp add: seg_ok_def)

lemma Path_render:
  assumes g: "good init cs"
  shows "Path (render init cs) = \<lparr>root = replicate init (CHR ''/''), parts = cs\<rparr>"
proof (cases "cs = []")
  case True
  have ok: "\<forall>c\<in>set cs. seg_ok c" using g by (simp add: good_def list_all_iff)
  show ?thesis
  proof (cases "init = 0")
    case True
    with \<open>cs = []\<close> show ?thesis by (simp add: render_def Path_def splitroot_def)
  next
    case False
    have i: "init \<le> 2" using g by (simp add: good_def list_all_iff)
    have "splitroot (replicate init (CHR ''/'') @ []) = (replicate init (CHR ''/''), [])"
      using i by (rule splitroot_render) simp
    then show ?thesis using False \<open>cs = []\<close> by (simp add: render_def Path_def)
  qed
next
  case False
  have i: "init \<le> 2" and ok: "\<forall>c\<in>set cs. seg_ok c" using g by (simp_all add: good_def list_all_iff)
  have j: "join_sep cs \<noteq> [] \<and> hd (join_sep cs) \<noteq> CHR ''/''"
    using False ok by (rule join_sep_nonempty)
  have sr: "splitroot (replicate init (CHR ''/'') @ join_sep cs) = (replicate init (CHR ''/''), join_sep cs)"
    using i j by (intro splitroot_render) auto
  have sp: "split_sep (join_sep cs) = cs" using False segs_no_sep [OF ok] by (rule split_join)
  show ?thesis using False sr sp filter_segs [OF ok] by (simp add: render_alt [OF ok] Path_def)
qed

lemma path_str_render: "path_str \<lparr>root = replicate init (CHR ''/''), parts = cs\<rparr> = render init cs"
  by (simp add: path_str_def render_def)

lemma normpath_render_fix:
  assumes g: "good init cs"
  shows "normpath (render init cs) = render init cs"
proof -
  have i: "init \<le> 2" and ok: "\<forall>c\<in>set cs. seg_ok c" and fx: "norm_comps init [] cs = cs"
    using g by (simp_all add: good_def list_all_iff)
  show ?thesis
  proof (cases "cs = []")
    case True
    show ?thesis
    proof (cases "init = 0")
      case True
      with \<open>cs = []\<close> show ?thesis
        by (simp add: render_def normpath_def initial_slashes_def)
    next
      case False
      let ?s = "replicate init (CHR ''/'')"
      have isl: "initial_slashes (?s @ []) = init" using i by (rule initial_slashes_render) simp
      have sp: "split_sep (?s @ []) = replicate init [] @ [[]]" by (simp only: split_slashes split_sep.simps)
      have nc: "norm_comps init [] (replicate init [] @ [[]]) = []" by (simp only: norm_comps_skip) simp
      have ne: "?s \<noteq> []" using False by simp
      show ?thesis using False \<open>cs = []\<close> isl sp nc ne
        by (simp add: render_def normpath_def Let_def)
    qed
  next
    case False
    let ?s = "replicate init (CHR ''/'') @ join_sep cs"
    have j: "join_sep cs \<noteq> [] \<and> hd (join_sep cs) \<noteq> CHR ''/''"
      using False ok by (rule join_sep_nonempty)
    have isl: "initial_slashes ?s = init" using i j by (intro initial_slashes_render) auto
    have "split_sep ?s = replicate init [] @ split_sep (join_sep cs)" by (rule split_slashes)
    also have "\<dots> = replicate init [] @ cs" using False segs_no_sep [OF ok] by (simp add: split_join)
    finally have sp: "split_sep ?s = replicate init [] @ cs" .
    have nc: "norm_comps init [] (split_sep ?s) = cs" unfolding sp by (simp only: norm_comps_skip fx)
    have ne: "?s \<noteq> []" using j by simp
    show ?thesis using False isl nc ne j by (simp add: render_alt [OF ok] normpath_def Let_def)
  qed
qed

text \<open>Every normalised project root is a canonical path.\<close>

lemma normalize_render:
  "\<exists>init cs. good init cs \<and> normalize_project_root p = render init cs"
proof -
  obtain init cs where g: "good init cs" and n: "normpath p = render init cs"
    using normpath_render by blast
  show ?thesis
  proof (cases "lower (path_name (Path (normpath p))) = ''_artifacts'' \<or> lower (path_name (Path (normpath p))) = ''execledger''")
    case True
    have "normalize_project_root p = path_str (path_parent (Path (normpath p)))"
      using True by (simp add: normalize_project_root_def Let_def)
    also have "\<dots> = path_str (path_parent \<lparr>root = replicate init (CHR ''/''), parts = cs\<rparr>)"
      by (simp only: n Path_render [OF g])
    also have "\<dots> = render init (butlast cs)"
      by (cases "cs = []") (simp_all add: path_parent_def path_str_render)
    finally have "normalize_project_root p = render init (butlast cs)" .
    with good_butlast [OF g] show ?thesis by blast
  next
    case False
    then have "normalize_project_root p = normpath p"
      by (simp add: normalize_project_root_def Let_def)
    with g n show ?thesis by auto
  qed
qed

section \<open>The artifacts root as a string\<close>



















section \<open>The store after each operation\<close>

lemma derive_is_join:
  "derive_artifacts_root r = path_str (path_div (Path (normalize_project_root r)) ''execledger'')"
  by (simp add: derive_artifacts_root_def)

lemma project_ok_derived: "project_ok \<lparr>name = n, project_root = r, artifacts_root = derive_artifacts_root r\<rparr>"
  by (simp add: project_ok_def derive_is_join)

lemma project_ok_entry: "project_ok (normalize_project_entry repo_root e)"
  by (simp add: normalize_project_entry_def Let_def project_ok_derived split: option.splits)

lemma project_ok_defaults: "list_all project_ok (projects (defaults repo_root))"
  by (simp add: defaults_def Let_def project_ok_derived)

lemma project_ok_load: "list_all project_ok (projects (load_config repo_root f))"
proof (cases f)
  case NoFile
  then show ?thesis by (simp add: load_config_def project_ok_defaults)
next
  case Unreadable
  then show ?thesis by (simp add: load_config_def project_ok_defaults)
next
  case (Content c0)
  then show ?thesis
    using project_ok_defaults [of repo_root]
    by (simp add: load_config_def Let_def project_ok_entry list_all_iff split: option.splits)
qed

lemma get_projects_save [simp]: "get_projects (save_config s) = get_projects s"
  by (simp add: save_config_def get_projects_def)

lemma get_projects_config_update [simp]:
  "get_projects (s\<lparr>config := c\<rparr>) = projects c"
  by (simp add: get_projects_def)

lemma get_projects_set_projects [simp]: "get_projects (set_projects ps s) = ps"
  by (simp add: set_projects_def save_config_def get_projects_def)

lemma get_projects_set_active [simp]: "get_projects (set_active_project_name n s) = get_projects s"
  by (simp add: set_active_project_name_def save_config_def get_projects_def)

lemma update_first_ok:
  "update_first n pr (derive_artifacts_root pr) ps = Some qs \<Longrightarrow> list_all project_ok ps
     \<Longrightarrow> list_all project_ok qs"
proof (induction ps arbitrary: qs)
  case Nil
  then show ?case by simp
next
  case (Cons p ps)
  show ?case
  proof (cases "name p = n")
    case True
    have "project_ok (p\<lparr>project_root := pr, artifacts_root := derive_artifacts_root pr\<rparr>)"
      by (simp add: project_ok_def derive_is_join)
    with True Cons.prems show ?thesis by auto
  next
    case False
    with Cons.prems obtain qs' where q: "update_first n pr (derive_artifacts_root pr) ps = Some qs'"
      and e: "qs = p # qs'"
      by (auto split: option.splits)
    from Cons.IH [OF q] Cons.prems(2) e show ?thesis by simp
  qed
qed

lemma projects_upsert:
  "get_projects (upsert_project n pr0 s) =
     (case update_first n (normalize_project_root pr0)
             (derive_artifacts_root (normalize_project_root pr0)) (get_projects s) of
        Some qs \<Rightarrow> qs
      | None \<Rightarrow> get_projects s @
          [\<lparr>name = n, project_root = normalize_project_root pr0,
            artifacts_root = derive_artifacts_root (normalize_project_root pr0)\<rparr>])"
  by (simp add: upsert_project_def Let_def)

lemma projects_remove:
  "get_projects (fst (remove_project n s)) =
     (if length (get_projects s) \<le> 1 then get_projects s
      else filter (\<lambda>p. \<not> (name p = n)) (get_projects s))"
  by (simp add: remove_project_def Let_def split: list.splits)

lemma projects_setter:
  "get_projects (artifacts_root_setter v s) =
     (case get_active_project s of
        None \<Rightarrow> get_projects s
      | Some a \<Rightarrow>
          (case update_first (get_active_project_name s) v (derive_artifacts_root v)
                  (get_projects s) of
             Some qs \<Rightarrow> qs
           | None \<Rightarrow> get_projects s))"
  by (simp add: artifacts_root_setter_def Let_def get_projects_def [of s] split: option.splits)

lemma projects_set_active:
  "get_projects (fst (set_active_project_by_name n s)) = get_projects s"
  by (simp add: set_active_project_by_name_def split: option.splits)

lemma projects_tier: "get_projects (fst (tier_setter v s)) = get_projects s"
  by (simp add: tier_setter_def get_projects_def [of s])

lemma projects_dev_mode: "get_projects (dev_mode_setter v s) = get_projects s"
  by (simp add: dev_mode_setter_def get_projects_def [of s])

lemma store_ok_upsert: "store_ok s \<Longrightarrow> store_ok (upsert_project n pr0 s)"
  unfolding store_ok_def projects_upsert
  by (auto simp: project_ok_derived split: option.splits intro: update_first_ok)

lemma store_ok_remove: "store_ok s \<Longrightarrow> store_ok (fst (remove_project n s))"
  unfolding store_ok_def projects_remove by (simp add: list_all_iff)

lemma store_ok_setter: "store_ok s \<Longrightarrow> store_ok (artifacts_root_setter v s)"
  unfolding store_ok_def projects_setter
  by (auto split: option.splits intro: update_first_ok)

lemma store_ok_set_active: "store_ok s \<Longrightarrow> store_ok (fst (set_active_project_by_name n s))"
  unfolding store_ok_def projects_set_active .

lemma store_ok_tier: "store_ok s \<Longrightarrow> store_ok (fst (tier_setter v s))"
  unfolding store_ok_def projects_tier .

lemma store_ok_dev_mode: "store_ok s \<Longrightarrow> store_ok (dev_mode_setter v s)"
  unfolding store_ok_def projects_dev_mode .

lemma store_ok_apply: "store_ok s \<Longrightarrow> store_ok (apply_op x s)"
  by (cases x) (simp_all add: store_ok_upsert store_ok_remove store_ok_setter store_ok_set_active
      store_ok_tier store_ok_dev_mode)

lemma store_ok_run: "store_ok s \<Longrightarrow> store_ok (run_ops xs s)"
  by (induction xs arbitrary: s) (simp_all add: store_ok_apply)

lemma store_ok_init: "store_ok (Config_init repo_root f w)"
  by (simp add: store_ok_def Config_init_def get_projects_def project_ok_load)

lemma save_config_config [simp]: "config (save_config s) = config s"
  by (simp add: save_config_def)

lemma remove_project_last_rejected:
  "length (get_projects s) \<le> 1 \<Longrightarrow> remove_project n s = (s, False)"
  by (simp add: remove_project_def Let_def)

lemma filter_no_match: "n \<notin> set (map name ps) \<Longrightarrow> filter (\<lambda>p. \<not> (name p = n)) ps = ps"
  by (induction ps) auto

lemma set_projects_same: "set_projects (get_projects s) s = save_config s"
  by (simp add: set_projects_def get_projects_def)

lemma active_save [simp]: "get_active_project_name (save_config s) = get_active_project_name s"
  by (simp add: get_active_project_name_def)

lemma active_set [simp]: "get_active_project_name (set_active_project_name n s) = n"
  by (simp add: get_active_project_name_def set_active_project_name_def)

lemma dump_projects_active [simp]:
  "f_projects (dump (c\<lparr>active_project := a\<rparr>)) = f_projects (dump c)"
  by (simp add: dump_def)

lemma legacy_parent: "path_str (path_parent (Path ''/a/b/_artifacts'')) = ''/a/b''"
  by code_simp

lemma legacy_suffix: "suffix ''_artifacts'' ''/a/b/_artifacts''"
  by code_simp

lemma legacy_normalize: "normalize_project_root ''/a/b'' = ''/a/b''"
  by code_simp

lemma legacy_derive: "derive_artifacts_root ''/a/b'' = ''/a/b/execledger''"
  by code_simp

section \<open>The result of a completed child process\<close>

lemma execute_completed:
  "run c 30 = CompletedProcess out err rc \<Longrightarrow>
   fst (execute_engine run loads self c) =
     (if rc = 0 then
        (case loads out of
           Parsed doc \<Rightarrow> \<lparr>ok = True, contract = doc, stdout = out, stderr = err, code = rc, cmd = c\<rparr>
         | JSONDecodeError e \<Rightarrow>
             \<lparr>ok = False, contract = None, stdout = out,
              stderr = ''JSON parse error: '' @ e @ [CHR 0x5C, CHR ''n''] @ err, code = rc, cmd = c\<rparr>
         | LoadsRaised e \<Rightarrow> failure_result (''Engine execution failed: '' @ e) c)
      else \<lparr>ok = False, contract = None, stdout = out, stderr = err, code = rc, cmd = c\<rparr>)"
  by (simp add: execute_engine_def Let_def)

section \<open>Claims on normalisation and derivation\<close>

text \<open>
  Claim C1, as the specification states it: for every path \<open>P\<close>,
  \<^verbatim>\<open>normalize_project_root(normalize_project_root(P)) == normalize_project_root(P)\<close>.
  The function removes one reserved final component, so a path that ends in two of them
  loses one at each application: the statement fails at \<^verbatim>\<open>/a/execledger/_artifacts\<close>,
  which goes to \<^verbatim>\<open>/a/execledger\<close> and then to \<^verbatim>\<open>/a\<close>.
\<close>

theorem normalize_project_root_not_idempotent:
  "normalize_project_root (normalize_project_root ''/a/execledger/_artifacts'')
     \<noteq> normalize_project_root ''/a/execledger/_artifacts''"
  by code_simp

text \<open>
  Claim C1, amended: for every path \<open>P\<close> such that the final component of
  \<^verbatim>\<open>normalize_project_root(P)\<close> is not a reserved name (\<^verbatim>\<open>_artifacts\<close> or
  \<^verbatim>\<open>execledger\<close>, compared in lower case), normalising a second time changes nothing.
\<close>

theorem normalize_project_root_idempotent_unless_reserved:
  assumes "\<not> (lower (path_name (Path (normalize_project_root p))) = ''_artifacts'')"
    and "\<not> (lower (path_name (Path (normalize_project_root p))) = ''execledger'')"
  shows "normalize_project_root (normalize_project_root p) = normalize_project_root p"
proof -
  obtain init cs where g: "good init cs" and n: "normalize_project_root p = render init cs"
    using normalize_render by blast
  have np: "normpath (normalize_project_root p) = normalize_project_root p"
    unfolding n using g by (rule normpath_render_fix)
  show ?thesis
    using assms by (subst normalize_project_root_def) (simp add: np Let_def)
qed

theorem normalize_project_root_idempotent_witness:
  "lower (path_name (Path (normalize_project_root ''/a/b/_artifacts''))) \<noteq> ''_artifacts'' \<and>
   lower (path_name (Path (normalize_project_root ''/a/b/_artifacts''))) \<noteq> ''execledger'' \<and>
   normalize_project_root (normalize_project_root ''/a/b/_artifacts'')
     = normalize_project_root ''/a/b/_artifacts''"
proof -
  have h1: "\<not> (lower (path_name (Path (normalize_project_root ''/a/b/_artifacts''))) = ''_artifacts'')"
    by code_simp
  have h2: "\<not> (lower (path_name (Path (normalize_project_root ''/a/b/_artifacts''))) = ''execledger'')"
    by code_simp
  show ?thesis
    using h1 h2 normalize_project_root_idempotent_unless_reserved [OF h1 h2] by blast
qed




section \<open>Claims on the configuration store\<close>

text \<open>
  Claim C6: after loading and after any sequence of mutating operations (upsert, remove,
  the write of \<^verbatim>\<open>artifacts_root\<close>, and the others), every project of the store has
  \<^verbatim>\<open>artifacts_root\<close> equal to \<^verbatim>\<open>normalize_project_root(project_root)\<close> joined with
  \<^verbatim>\<open>execledger\<close>.
\<close>

theorem artifacts_root_invariant:
  "\<forall>p \<in> set (get_projects (run_ops xs (Config_init repo_root f w))).
     artifacts_root p
       = path_str (path_div (Path (normalize_project_root (project_root p))) ''execledger'')"
  using store_ok_run [OF store_ok_init, of xs repo_root f w]
  by (simp add: store_ok_def list_all_iff project_ok_def)

theorem artifacts_root_invariant_witness:
  "\<lparr>name = ''X'', project_root = ''/zz/_artifacts'', artifacts_root = ''/zz/execledger''\<rparr>
     \<in> set (get_projects (run_ops [Upsert ''X'' ''/repo/execledger/execledger'', SetActive ''X'',
          SetArtifactsRoot ''/zz/_artifacts'', Remove ''ExecLedger''] (Config_init ''/repo'' NoFile True))) \<and>
   artifacts_root \<lparr>name = ''X'', project_root = ''/zz/_artifacts'', artifacts_root = ''/zz/execledger''\<rparr>
     = path_str (path_div (Path (normalize_project_root (project_root
         \<lparr>name = ''X'', project_root = ''/zz/_artifacts'', artifacts_root = ''/zz/execledger''\<rparr>))) ''execledger'')"
proof -
  have mem: "\<lparr>name = ''X'', project_root = ''/zz/_artifacts'', artifacts_root = ''/zz/execledger''\<rparr>
     \<in> set (get_projects (run_ops [Upsert ''X'' ''/repo/execledger/execledger'', SetActive ''X'',
          SetArtifactsRoot ''/zz/_artifacts'', Remove ''ExecLedger''] (Config_init ''/repo'' NoFile True)))"
    by code_simp
  from artifacts_root_invariant [THEN bspec, OF mem] mem show ?thesis by simp
qed

text \<open>
  Claim C9: loading a file that holds only
  \<^verbatim>\<open>{"artifacts_root": "/a/b/_artifacts"}\<close> gives exactly one project, with
  \<^verbatim>\<open>project_root\<close> \<^verbatim>\<open>/a/b\<close> and \<^verbatim>\<open>artifacts_root\<close> \<^verbatim>\<open>/a/b/execledger\<close>, whatever
  the repository root of the defaults is.
\<close>

theorem legacy_load:
  "get_projects (Config_init repo_root
      (Content \<lparr>f_artifacts_root = Some ''/a/b/_artifacts'', f_dev_mode = None, f_tier = None,
                f_projects = None, f_active_project = None\<rparr>) w)
   = [\<lparr>name = ''ExecLedger'', project_root = ''/a/b'', artifacts_root = ''/a/b/execledger''\<rparr>]"
  by (simp add: Config_init_def get_projects_def load_config_def migrate_legacy_def
      normalize_project_entry_def entry_name_def Let_def
      legacy_parent legacy_suffix legacy_normalize legacy_derive)

theorem legacy_load_witness:
  "get_projects (Config_init ''/repo''
      (Content \<lparr>f_artifacts_root = Some ''/a/b/_artifacts'', f_dev_mode = None, f_tier = None,
                f_projects = None, f_active_project = None\<rparr>) True)
   = [\<lparr>name = ''ExecLedger'', project_root = ''/a/b'', artifacts_root = ''/a/b/execledger''\<rparr>]"
  by (rule legacy_load)

text \<open>
  Claim C7: on a store with exactly one project \<^verbatim>\<open>remove_project\<close> returns false and
  leaves the store as it is, so that at least one project exists at all times. The guard
  of \<^verbatim>\<open>remove_project\<close> counts the projects before it filters them by name. A file
  with two entries without a name loads as two projects that are both called
  \<^verbatim>\<open>ExecLedger\<close>; there the guard lets the call through, the filter removes both, the
  call returns true and the store is left without a project, against the docstring
  \<^verbatim>\<open>Returns False if it's the last project\<close>.
\<close>

theorem remove_project_empties_store:
  "length (get_projects (Config_init ''/repo''
      (Content \<lparr>f_artifacts_root = None, f_dev_mode = None, f_tier = None,
         f_projects = Some [\<lparr>e_name = None, e_project_root = None, e_artifacts_root = Some ''/a/_artifacts''\<rparr>,
                            \<lparr>e_name = None, e_project_root = None, e_artifacts_root = Some ''/b/_artifacts''\<rparr>],
         f_active_project = None\<rparr>) True)) = 2 \<and>
   snd (remove_project ''ExecLedger'' (Config_init ''/repo''
      (Content \<lparr>f_artifacts_root = None, f_dev_mode = None, f_tier = None,
         f_projects = Some [\<lparr>e_name = None, e_project_root = None, e_artifacts_root = Some ''/a/_artifacts''\<rparr>,
                            \<lparr>e_name = None, e_project_root = None, e_artifacts_root = Some ''/b/_artifacts''\<rparr>],
         f_active_project = None\<rparr>) True)) = True \<and>
   get_projects (fst (remove_project ''ExecLedger'' (Config_init ''/repo''
      (Content \<lparr>f_artifacts_root = None, f_dev_mode = None, f_tier = None,
         f_projects = Some [\<lparr>e_name = None, e_project_root = None, e_artifacts_root = Some ''/a/_artifacts''\<rparr>,
                            \<lparr>e_name = None, e_project_root = None, e_artifacts_root = Some ''/b/_artifacts''\<rparr>],
         f_active_project = None\<rparr>) True))) = []"
  by code_simp

text \<open>
  Claim C10, as the specification states it: with two or more projects, removing a name
  that no project has leaves the active-project pointer as it is. The pointer is compared
  with the name whether or not a project was removed: a file without the key
  \<^verbatim>\<open>active_project\<close> gives the pointer \<^verbatim>\<open>ExecLedger\<close>, and removing
  \<^verbatim>\<open>ExecLedger\<close>, which is no project's name there, moves the pointer to the first
  project.
\<close>

theorem remove_project_moves_stale_pointer:
  "get_active_project_name (fst (remove_project ''ExecLedger'' (Config_init ''/repo''
      (Content \<lparr>f_artifacts_root = None, f_dev_mode = None, f_tier = None,
         f_projects = Some [\<lparr>e_name = Some ''A'', e_project_root = Some ''/a'', e_artifacts_root = Some ''/a/execledger''\<rparr>,
                            \<lparr>e_name = Some ''B'', e_project_root = Some ''/b'', e_artifacts_root = Some ''/b/execledger''\<rparr>],
         f_active_project = None\<rparr>) True)))
   \<noteq> get_active_project_name (Config_init ''/repo''
      (Content \<lparr>f_artifacts_root = None, f_dev_mode = None, f_tier = None,
         f_projects = Some [\<lparr>e_name = Some ''A'', e_project_root = Some ''/a'', e_artifacts_root = Some ''/a/execledger''\<rparr>,
                            \<lparr>e_name = Some ''B'', e_project_root = Some ''/b'', e_artifacts_root = Some ''/b/execledger''\<rparr>],
         f_active_project = None\<rparr>) True)"
  by code_simp

text \<open>
  Claim C10, amended: with two or more projects \<^verbatim>\<open>remove_project\<close> returns true for
  every name; when no project has the name, the list of projects is unchanged and written
  back (the file holds it when the write succeeds), and the store is otherwise unchanged
  unless the active-project pointer equals the name, in which case the pointer is set to
  the name of the first project.
\<close>

theorem remove_project_unknown_name:
  assumes two: "2 \<le> length (get_projects s)"
  shows "snd (remove_project n s) = True \<and>
     (n \<notin> set (map name (get_projects s)) \<longrightarrow>
        get_projects (fst (remove_project n s)) = get_projects s \<and>
        (writable s \<longrightarrow>
           (case disk (fst (remove_project n s)) of
              Content c \<Rightarrow> f_projects c = f_projects (dump (config s))
            | _ \<Rightarrow> False)) \<and>
        (\<not> (get_active_project_name s = n) \<longrightarrow> fst (remove_project n s) = save_config s) \<and>
        (get_active_project_name s = n \<longrightarrow>
           fst (remove_project n s)
             = set_active_project_name (name (hd (get_projects s))) (save_config s)))"
proof -
  have r: "snd (remove_project n s) = True"
    using two by (simp add: remove_project_def Let_def)
  have m: "fst (remove_project n s) = (if get_active_project_name s = n
       then set_active_project_name (name (hd (get_projects s))) (save_config s) else save_config s)"
    if "n \<notin> set (map name (get_projects s))"
  proof -
    obtain a rest where ps: "get_projects s = a # rest" using two by (cases "get_projects s") auto
    have sp: "set_projects (a # rest) s = save_config s"
      using set_projects_same [of s] by (simp add: ps)
    have na: "\<not> (name a = n)" using that ps by auto
    have fr: "filter (\<lambda>p. \<not> (name p = n)) rest = rest"
      using that ps filter_no_match [of n rest] by auto
    show ?thesis using two by (auto simp: remove_project_def Let_def ps na fr sp)
  qed
  have d: "writable s \<Longrightarrow> (case disk (fst (remove_project n s)) of
              Content c \<Rightarrow> f_projects c = f_projects (dump (config s))
            | _ \<Rightarrow> False)"
    if "n \<notin> set (map name (get_projects s))"
    by (simp add: m [OF that] save_config_def set_active_project_name_def)
  show ?thesis using r m d by (auto simp: projects_remove filter_no_match)
qed

theorem remove_project_unknown_name_witness:
  "2 \<le> length (get_projects (run_ops [Upsert ''X'' ''/x''] (Config_init ''/repo'' NoFile True))) \<and>
   ''Nobody'' \<notin> set (map name (get_projects (run_ops [Upsert ''X'' ''/x''] (Config_init ''/repo'' NoFile True)))) \<and>
   writable (run_ops [Upsert ''X'' ''/x''] (Config_init ''/repo'' NoFile True)) \<and>
   \<not> (get_active_project_name (run_ops [Upsert ''X'' ''/x''] (Config_init ''/repo'' NoFile True)) = ''Nobody'') \<and>
   snd (remove_project ''Nobody'' (run_ops [Upsert ''X'' ''/x''] (Config_init ''/repo'' NoFile True))) = True \<and>
   fst (remove_project ''Nobody'' (run_ops [Upsert ''X'' ''/x''] (Config_init ''/repo'' NoFile True)))
     = save_config (run_ops [Upsert ''X'' ''/x''] (Config_init ''/repo'' NoFile True)) \<and>
   2 \<le> length (get_projects (run_ops [Upsert ''X'' ''/x'']
          (Config_init ''/repo'' NoFile True\<lparr>config := (config (Config_init ''/repo'' NoFile True))
             \<lparr>active_project := ''Nobody''\<rparr>\<rparr>))) \<and>
   get_active_project_name (fst (remove_project ''Nobody'' (run_ops [Upsert ''X'' ''/x'']
          (Config_init ''/repo'' NoFile True\<lparr>config := (config (Config_init ''/repo'' NoFile True))
             \<lparr>active_project := ''Nobody''\<rparr>\<rparr>)))) = ''ExecLedger''"
proof -
  let ?s = "run_ops [Upsert ''X'' ''/x''] (Config_init ''/repo'' NoFile True)"
  let ?t = "run_ops [Upsert ''X'' ''/x'']
          (Config_init ''/repo'' NoFile True\<lparr>config := (config (Config_init ''/repo'' NoFile True))
             \<lparr>active_project := ''Nobody''\<rparr>\<rparr>)"
  have h1: "2 \<le> length (get_projects ?s)" by code_simp
  have h2: "''Nobody'' \<notin> set (map name (get_projects ?s))" by code_simp
  have h3: "writable ?s" by code_simp
  have h4: "\<not> (get_active_project_name ?s = ''Nobody'')" by code_simp
  have k1: "2 \<le> length (get_projects ?t)" by code_simp
  have k2: "''Nobody'' \<notin> set (map name (get_projects ?t))" by code_simp
  have k3: "get_active_project_name ?t = ''Nobody''" by code_simp
  have k4: "get_active_project_name
      (set_active_project_name (name (hd (get_projects ?t))) (save_config ?t)) = ''ExecLedger''"
    by code_simp
  have a: "fst (remove_project ''Nobody'' ?s) = save_config ?s \<and> snd (remove_project ''Nobody'' ?s) = True"
    using h2 h4 remove_project_unknown_name [OF h1, of "''Nobody''"] by blast
  have b: "fst (remove_project ''Nobody'' ?t)
      = set_active_project_name (name (hd (get_projects ?t))) (save_config ?t)"
    using k2 k3 remove_project_unknown_name [OF k1, of "''Nobody''"] by blast
  show ?thesis using h1 h2 h3 h4 k1 a b k4 by simp
qed

text \<open>
  Claim C5, as the specification states it: every failure of the store, the invalid tier
  included, becomes a returned status and never an exception. The setter of \<^verbatim>\<open>tier\<close>
  raises \<^verbatim>\<open>ValueError\<close> to its caller.
\<close>

theorem tier_setter_invalid_raises:
  "snd (tier_setter ''GOLD'' (Config_init ''/repo'' NoFile True)) = Some (ValueError ''Invalid tier: GOLD'')"
  by code_simp

text \<open>
  Claim C5, amended: the write of \<^verbatim>\<open>tier\<close> with a value other than \<^verbatim>\<open>FREE\<close>,
  \<^verbatim>\<open>PRO\<close>, \<^verbatim>\<open>PREMIUM\<close> raises \<^verbatim>\<open>ValueError\<close> with the text
  \<^verbatim>\<open>Invalid tier: \<close> and the value, and leaves the store as it is; with one of the
  three values it raises nothing, stores the value and saves.
\<close>

theorem tier_setter_outcome:
  "(v \<notin> {''FREE'', ''PRO'', ''PREMIUM''} \<longrightarrow>
      tier_setter v s = (s, Some (ValueError (''Invalid tier: '' @ v)))) \<and>
   (v \<in> {''FREE'', ''PRO'', ''PREMIUM''} \<longrightarrow>
      snd (tier_setter v s) = None \<and> tier (config (fst (tier_setter v s))) = v \<and>
      fst (tier_setter v s) = save_config (s\<lparr>config := (config s)\<lparr>tier := v\<rparr>\<rparr>))"
  by (simp add: tier_setter_def)

theorem tier_setter_outcome_witness:
  "''GOLD'' \<notin> {''FREE'', ''PRO'', ''PREMIUM''} \<and>
   tier_setter ''GOLD'' (Config_init ''/repo'' NoFile True)
     = (Config_init ''/repo'' NoFile True, Some (ValueError ''Invalid tier: GOLD'')) \<and>
   ''PRO'' \<in> {''FREE'', ''PRO'', ''PREMIUM''} \<and>
   snd (tier_setter ''PRO'' (Config_init ''/repo'' NoFile True)) = None \<and>
   tier (config (fst (tier_setter ''PRO'' (Config_init ''/repo'' NoFile True)))) = ''PRO''"
proof -
  have h1: "''GOLD'' \<notin> {''FREE'', ''PRO'', ''PREMIUM''}" by simp
  have h2: "''PRO'' \<in> {''FREE'', ''PRO'', ''PREMIUM''}" by simp
  show ?thesis
    using h1 h2 tier_setter_outcome [of "''GOLD''" "Config_init ''/repo'' NoFile True"]
      tier_setter_outcome [of "''PRO''" "Config_init ''/repo'' NoFile True"]
    by simp
qed

section \<open>Claims on the engine gateway\<close>

text \<open>
  Claim C3: when the child process ends (no launch failure, no timeout), the result has
  \<^verbatim>\<open>ok\<close> true if and only if the exit code is 0 and the output parses as JSON; on
  exit code 0 with an output that is not JSON (\<^verbatim>\<open>json.loads\<close> raises
  \<^verbatim>\<open>JSONDecodeError\<close>) the result has \<^verbatim>\<open>ok\<close> false and no contract, and its
  diagnostic stream holds the text of the parse error together with what the child wrote
  to \<^verbatim>\<open>stderr\<close>.
\<close>

theorem execute_engine_classification:
  assumes "run c 30 = CompletedProcess out err rc"
  shows "(ok (fst (execute_engine run loads self c))
            \<longleftrightarrow> rc = 0 \<and> (\<exists>doc. loads out = Parsed doc)) \<and>
         (rc = 0 \<longrightarrow> loads out = JSONDecodeError e \<longrightarrow>
            ok (fst (execute_engine run loads self c)) = False \<and>
            contract (fst (execute_engine run loads self c)) = None \<and>
            code (fst (execute_engine run loads self c)) = 0 \<and>
            stdout (fst (execute_engine run loads self c)) = out \<and>
            sublist e (stderr (fst (execute_engine run loads self c))) \<and>
            sublist err (stderr (fst (execute_engine run loads self c))))"
proof -
  have a: "sublist e (''JSON parse error: '' @ e @ [CHR 0x5C, CHR ''n''] @ err)"
    by (rule sublist_appendI)
  have b: "sublist err (''JSON parse error: '' @ e @ [CHR 0x5C, CHR ''n''] @ err)"
    using sublist_append_leftI [of err "''JSON parse error: '' @ e @ [CHR 0x5C, CHR ''n'']"]
    by simp
  show ?thesis
    using assms a b
    by (auto simp: execute_completed failure_result_def split: loads_result.splits)
qed

theorem execute_engine_classification_witness:
  "(\<lambda>c t. CompletedProcess ''not json'' ''warn'' 0) [''node''] 30
     = CompletedProcess ''not json'' ''warn'' 0 \<and>
   (0::int) = 0 \<and>
   (\<lambda>s. JSONDecodeError ''Expecting value'' :: string loads_result) ''not json''
     = JSONDecodeError ''Expecting value'' \<and>
   ok (fst (execute_engine (\<lambda>c t. CompletedProcess ''not json'' ''warn'' 0)
          (\<lambda>s. JSONDecodeError ''Expecting value'' :: string loads_result)
          \<lparr>engine_path = ''index.js'', last_result = None\<rparr> [''node''])) = False \<and>
   contract (fst (execute_engine (\<lambda>c t. CompletedProcess ''not json'' ''warn'' 0)
          (\<lambda>s. JSONDecodeError ''Expecting value'' :: string loads_result)
          \<lparr>engine_path = ''index.js'', last_result = None\<rparr> [''node''])) = None \<and>
   sublist ''Expecting value''
     (stderr (fst (execute_engine (\<lambda>c t. CompletedProcess ''not json'' ''warn'' 0)
          (\<lambda>s. JSONDecodeError ''Expecting value'' :: string loads_result)
          \<lparr>engine_path = ''index.js'', last_result = None\<rparr> [''node''])))"
proof -
  have h: "(\<lambda>c t. CompletedProcess ''not json'' ''warn'' 0) [''node''] 30
      = CompletedProcess ''not json'' ''warn'' 0"
    by simp
  show ?thesis
    using execute_engine_classification
      [of "\<lambda>c t. CompletedProcess ''not json'' ''warn'' 0" "[''node'']" "''not json''" "''warn''" 0
        "\<lambda>s. JSONDecodeError ''Expecting value'' :: string loads_result"
        "\<lparr>engine_path = ''index.js'', last_result = None\<rparr>" "''Expecting value''", OF h]
    by blast
qed

text \<open>
  Claim C8: when the child process exceeds the timeout of 30, the result has \<^verbatim>\<open>ok\<close>
  false, exit code \<open>-1\<close>, no contract, and the diagnostic \<^verbatim>\<open>Engine timeout after 30s\<close>,
  which mentions the timeout; this holds for \<^verbatim>\<open>_execute_engine\<close> on any command and
  for the three operations of the gateway.
\<close>

theorem timeout_result:
  "(run c 30 = TimeoutExpired \<longrightarrow>
      fst (execute_engine run loads self c) =
        \<lparr>ok = False, contract = None, stdout = [], stderr = ''Engine timeout after 30s'',
         code = - 1, cmd = c\<rparr>) \<and>
   ((\<forall>c. run c 30 = TimeoutExpired) \<longrightarrow>
      (\<forall>r \<in> {fst (get_latest_session run loads self a),
              fst (get_specific_session run loads self a x y),
              fst (export_contract_to_file run loads self a out ex se)}.
         ok r = False \<and> contract r = None \<and> code r = - 1 \<and>
         stderr r = ''Engine timeout after 30s'' \<and> sublist ''timeout'' (stderr r)))"
proof -
  have s: "sublist ''timeout'' ''Engine timeout after 30s''" by code_simp
  show ?thesis using s
    by (simp add: execute_engine_def failure_result_def get_latest_session_def
        get_specific_session_def export_contract_to_file_def Let_def)
qed

theorem timeout_result_witness:
  "(\<lambda>c t. TimeoutExpired) [''node''] 30 = TimeoutExpired \<and>
   fst (execute_engine (\<lambda>c t. TimeoutExpired)
          (\<lambda>s. JSONDecodeError ''Expecting value'' :: string loads_result)
          \<lparr>engine_path = ''index.js'', last_result = None\<rparr> [''node''])
     = \<lparr>ok = False, contract = None, stdout = [], stderr = ''Engine timeout after 30s'',
        code = - 1, cmd = [''node'']\<rparr> \<and>
   ok (fst (get_latest_session (\<lambda>c t. TimeoutExpired)
          (\<lambda>s. JSONDecodeError ''Expecting value'' :: string loads_result)
          \<lparr>engine_path = ''index.js'', last_result = None\<rparr> ''/repo/execledger'')) = False \<and>
   code (fst (get_specific_session (\<lambda>c t. TimeoutExpired)
          (\<lambda>s. JSONDecodeError ''Expecting value'' :: string loads_result)
          \<lparr>engine_path = ''index.js'', last_result = None\<rparr> ''/repo/execledger''
          ''exec_1'' ''s1'')) = - 1 \<and>
   sublist ''timeout'' (stderr (fst (export_contract_to_file (\<lambda>c t. TimeoutExpired)
          (\<lambda>s. JSONDecodeError ''Expecting value'' :: string loads_result)
          \<lparr>engine_path = ''index.js'', last_result = None\<rparr> ''/repo/execledger''
          ''out.json'' None None)))"
  using timeout_result [of "\<lambda>c t. TimeoutExpired" "[''node'']"
        "\<lambda>s. JSONDecodeError ''Expecting value'' :: string loads_result"
        "\<lparr>engine_path = ''index.js'', last_result = None\<rparr>" "''/repo/execledger''"
        "''exec_1''" "''s1''" "''out.json''" None None]
  by blast

text \<open>
  Claim C4, as the specification states it: no operation of the gateway ever raises, a
  missing engine included. The constructor raises \<^verbatim>\<open>FileNotFoundError\<close> when the
  engine script does not exist.
\<close>

theorem EngineClient_init_raises:
  "(EngineClient_init (\<lambda>p. False) ''/repo/desktop-companion/ui'' :: error + string EngineClient)
     = Inl (FileNotFoundError ''Engine not found at: /repo/desktop-companion/engine/src/index.js'')"
  by code_simp

text \<open>
  Claim C4, amended: when the launch of the child raises an exception, the result has
  \<^verbatim>\<open>ok\<close> false, exit code \<open>-1\<close>, no contract and no output, and as diagnostic the text
  \<^verbatim>\<open>Engine execution failed: \<close> followed by the exception text; this holds for
  \<^verbatim>\<open>_execute_engine\<close> on any command and for the three operations of the gateway.
  Constructing the gateway raises \<^verbatim>\<open>FileNotFoundError\<close> when the engine script does
  not exist.
\<close>

theorem launch_failure_result:
  "(run c 30 = RunRaised e \<longrightarrow>
      fst (execute_engine run (loads :: string \<Rightarrow> 'j loads_result) self c) =
        \<lparr>ok = False, contract = None, stdout = [], stderr = ''Engine execution failed: '' @ e,
         code = - 1, cmd = c\<rparr>) \<and>
   ((\<forall>c. run c 30 = RunRaised e) \<longrightarrow>
      (\<forall>r \<in> {fst (get_latest_session run loads self a),
              fst (get_specific_session run loads self a x y),
              fst (export_contract_to_file run loads self a out ex se)}.
         ok r = False \<and> contract r = None \<and> code r = - 1 \<and>
         stderr r = ''Engine execution failed: '' @ e)) \<and>
   (\<not> exists (path_str (path_div (path_div (path_div (path_parent (Path ui_dir)) ''engine'')
                   ''src'') ''index.js'')) \<longrightarrow>
      (EngineClient_init exists ui_dir :: error + 'j EngineClient) =
        Inl (FileNotFoundError (''Engine not found at: '' @
          path_str (path_div (path_div (path_div (path_parent (Path ui_dir)) ''engine'')
                   ''src'') ''index.js''))))"
  by (simp add: execute_engine_def failure_result_def get_latest_session_def
      get_specific_session_def export_contract_to_file_def Let_def
      EngineClient_init_def get_engine_path_def)

theorem launch_failure_result_witness:
  "(\<lambda>c t. RunRaised ''[Errno 2] No such file or directory: node'') [''node''] 30
      = RunRaised ''[Errno 2] No such file or directory: node'' \<and>
   fst (execute_engine (\<lambda>c t. RunRaised ''[Errno 2] No such file or directory: node'')
          (\<lambda>s. JSONDecodeError ''Expecting value'' :: string loads_result)
          \<lparr>engine_path = ''index.js'', last_result = None\<rparr> [''node''])
     = \<lparr>ok = False, contract = None, stdout = [],
        stderr = ''Engine execution failed: [Errno 2] No such file or directory: node'',
        code = - 1, cmd = [''node'']\<rparr> \<and>
   ok (fst (get_latest_session (\<lambda>c t. RunRaised ''[Errno 2] No such file or directory: node'')
          (\<lambda>s. JSONDecodeError ''Expecting value'' :: string loads_result)
          \<lparr>engine_path = ''index.js'', last_result = None\<rparr> ''/repo/execledger'')) = False \<and>
   code (fst (get_specific_session (\<lambda>c t. RunRaised ''[Errno 2] No such file or directory: node'')
          (\<lambda>s. JSONDecodeError ''Expecting value'' :: string loads_result)
          \<lparr>engine_path = ''index.js'', last_result = None\<rparr> ''/repo/execledger''
          ''exec_1'' ''s1'')) = - 1 \<and>
   stderr (fst (export_contract_to_file (\<lambda>c t. RunRaised ''[Errno 2] No such file or directory: node'')
          (\<lambda>s. JSONDecodeError ''Expecting value'' :: string loads_result)
          \<lparr>engine_path = ''index.js'', last_result = None\<rparr> ''/repo/execledger''
          ''out.json'' None None))
     = ''Engine execution failed: [Errno 2] No such file or directory: node'' \<and>
   \<not> (\<lambda>p. False) (path_str (path_div (path_div (path_div
          (path_parent (Path ''/repo/desktop-companion/ui'')) ''engine'') ''src'') ''index.js'')) \<and>
   (EngineClient_init (\<lambda>p. False) ''/repo/desktop-companion/ui'' :: error + string EngineClient)
     = Inl (FileNotFoundError ''Engine not found at: /repo/desktop-companion/engine/src/index.js'')"
proof -
  have p: "path_str (path_div (path_div (path_div
          (path_parent (Path ''/repo/desktop-companion/ui'')) ''engine'') ''src'') ''index.js'')
        = ''/repo/desktop-companion/engine/src/index.js''"
    by code_simp
  have m: "''Engine execution failed: '' @ ''[Errno 2] No such file or directory: node''
        = ''Engine execution failed: [Errno 2] No such file or directory: node''"
    by simp
  have q: "''Engine not found at: '' @ ''/repo/desktop-companion/engine/src/index.js''
        = ''Engine not found at: /repo/desktop-companion/engine/src/index.js''"
    by simp
  show ?thesis
    using launch_failure_result [of "\<lambda>c t. RunRaised ''[Errno 2] No such file or directory: node''" "[''node'']"
        "''[Errno 2] No such file or directory: node''"
        "\<lambda>s. JSONDecodeError ''Expecting value'' :: string loads_result"
        "\<lparr>engine_path = ''index.js'', last_result = None\<rparr>"
        "''/repo/execledger''" "''exec_1''" "''s1''" "''out.json''" None None
        "\<lambda>p. False" "''/repo/desktop-companion/ui''"]
    unfolding p m q by blast
qed

end
